theory Spec2Isabelle
  imports Main "HOL-Library.List_Lexorder" "HOL-Library.Char_ord"
begin

section \<open>URL helpers (src/utils/urlDecoder.tsx)\<close>

text \<open>
  Strings are character lists. The platform's \<^verbatim>\<open>URL\<close> class is not code of the
  repository: its constructor is a parameter \<open>newURL\<close> of the two functions, returning
  \<open>None\<close> where the constructor throws. Only the four components the code reads are kept.
\<close>

record URL =
  protocol :: string
  hostname :: string
  port :: string
  pathname :: string

definition startsWith :: "string \<Rightarrow> string \<Rightarrow> bool" where
  "startsWith s p = (take (length p) s = p)"

definition normalizedInput :: "string \<Rightarrow> string" where
  "normalizedInput input = (if startsWith input ''http'' then input else ''https://'' @ input)"

text \<open>
  \<^verbatim>\<open>[null, "", "80", "443"].includes(url.port)\<close>: the array holds \<^verbatim>\<open>null\<close> and three
  strings, the port read from the URL is always a string.
\<close>

definition defaultPorts :: "string option list" where
  "defaultPorts = [None, Some '''', Some ''80'', Some ''443'']"

definition extractUrlDomain :: "(string \<Rightarrow> URL option) \<Rightarrow> string \<Rightarrow> string option" where
  "extractUrlDomain newURL input =
     (case newURL (normalizedInput input) of
        None \<Rightarrow> None
      | Some url \<Rightarrow>
          (let result = protocol url @ ''//'' @ hostname url
           in Some (if Some (port url) \<notin> set defaultPorts
                    then result @ '':'' @ port url else result)))"

text \<open>
  \<^verbatim>\<open>s.replace(/^\/|\/$/g, '')\<close>: the global replace scans the string from the left; at
  each position the first alternative matches a slash at the start of the string, the
  second a slash that is the last character; a matched slash is deleted and the scan goes
  on behind it. The flag says whether the position is the start of the string.
\<close>

fun replaceSlashes :: "bool \<Rightarrow> string \<Rightarrow> string" where
  "replaceSlashes atStart [] = []"
| "replaceSlashes atStart (c # cs) =
     (if c = CHR ''/'' \<and> (atStart \<or> cs = [])
      then replaceSlashes False cs
      else c # replaceSlashes False cs)"

definition extractUrlPath :: "(string \<Rightarrow> URL option) \<Rightarrow> string \<Rightarrow> string option" where
  "extractUrlPath newURL input =
     (case newURL (normalizedInput input) of
        None \<Rightarrow> None
      | Some url \<Rightarrow> Some (replaceSlashes True (pathname url)))"

text \<open>
  The replace as its comment words it ("Remove leading and trailing slashes"), for
  comparison with the scan above: one slash taken from the front, then one from the back
  of what is left.
\<close>

definition dropLeadingSlash :: "string \<Rightarrow> string" where
  "dropLeadingSlash s = (case s of [] \<Rightarrow> [] | c # cs \<Rightarrow> if c = CHR ''/'' then cs else s)"

definition dropTrailingSlash :: "string \<Rightarrow> string" where
  "dropTrailingSlash s = (if s \<noteq> [] \<and> last s = CHR ''/'' then butlast s else s)"

text \<open>
  A finite table of what the platform's constructor returns (WHATWG URL parsing) at the
  inputs used below to evaluate the functions; \<open>None\<close> is the thrown \<^verbatim>\<open>TypeError\<close>.
  Strings outside the table are not meant to be looked up.
\<close>

definition newURL_table :: "string \<Rightarrow> URL option" where
  "newURL_table s =
     (if s = ''https://example.com//a/'' then
        Some \<lparr>protocol = ''https:'', hostname = ''example.com'', port = '''', pathname = ''//a/''\<rparr>
      else if s = ''https://example.com//'' then
        Some \<lparr>protocol = ''https:'', hostname = ''example.com'', port = '''', pathname = ''//''\<rparr>
      else if s = ''http://example.com:443'' then
        Some \<lparr>protocol = ''http:'', hostname = ''example.com'', port = ''443'', pathname = ''/''\<rparr>
      else if s = ''http://example.com:8080/docs/'' then
        Some \<lparr>protocol = ''http:'', hostname = ''example.com'', port = ''8080'', pathname = ''/docs/''\<rparr>
      else None)"

section \<open>Repository reference (src/types/repoinfo.tsx)\<close>

text \<open>
  Modelled from the spec: the declaration of \<^verbatim>\<open>SupportedPlatform\<close>, which
  \<^verbatim>\<open>repoinfo.tsx\<close> imports, is not among the source files. Its values are taken to
  be the spec's host types other than \<^verbatim>\<open>local\<close>; they are the keys of \<^verbatim>\<open>iconMap\<close>
  in \<^verbatim>\<open>src/components/RepoIcon.tsx\<close>, which is indexed by a \<^verbatim>\<open>SupportedPlatform\<close>.
\<close>

datatype SupportedPlatform = github | gitlab | bitbucket | gitea

text \<open>\<^verbatim>\<open>SupportedPlatform | 'local'\<close>, and the interface as declared: a nullable field is an option.\<close>

datatype RepoType = Platform SupportedPlatform | local

record RepoInfo =
  owner :: string
  repo :: string
  type :: RepoType
  token :: "string option"
  localPath :: "string option"
  repoUrl :: "string option"

text \<open>A value of the interface, for evaluation.\<close>

definition repoInfo_hosted :: RepoInfo where
  "repoInfo_hosted =
     \<lparr>owner = ''AsyncFuncAI'', repo = ''deepwiki-open'', type = Platform github, token = None,
      localPath = None, repoUrl = Some ''https://github.com/AsyncFuncAI/deepwiki-open''\<rparr>"

section \<open>Content Extractor\<close>

text \<open>
  The error taxonomy of the spec, and two outcomes it describes without naming an error:
  \<open>OrderingError\<close>, a session whose turn ordering the core rejects, and \<open>Canceled\<close>, a
  call its caller canceled.
\<close>

datatype error =
    AccessError | NotFoundError | SizeLimitError | ProviderError | NotIndexedError
  | SynthesisError | OrderingError | Canceled

record ContentRecord =
  path :: string
  rawContent :: string
  sizeBytes :: nat
  isBinaryExcluded :: bool

record Filters =
  excludedDirs :: "string list"
  excludedFilePatterns :: "string list"

text \<open>The segments of a path: the text between its slashes.\<close>

fun segments :: "string \<Rightarrow> string list" where
  "segments [] = [[]]"
| "segments (c # cs) =
     (if c = CHR ''/'' then [] # segments cs
      else (case segments cs of [] \<Rightarrow> [[c]] | s # ss \<Rightarrow> (c # s) # ss))"

text \<open>
  Modelled from the spec: the Content Extractor is not among the source files. An
  exclusion filter is matched against the path's segments, a directory filter against
  the directories and a file pattern against the file name; the match of one pattern
  against one segment ("glob/substring") is the parameter \<open>matches\<close>.
\<close>

definition excluded :: "(string \<Rightarrow> string \<Rightarrow> bool) \<Rightarrow> Filters \<Rightarrow> string \<Rightarrow> bool" where
  "excluded matches filters p =
     (list_ex (\<lambda>d. list_ex (matches d) (butlast (segments p))) (excludedDirs filters)
      \<or> list_ex (\<lambda>f. matches f (last (segments p))) (excludedFilePatterns filters))"

text \<open>
  Modelled from the spec: the walk over the files that are left, in the order given.
  Each body is fetched through the host provider's \<open>readFile\<close>; a failed fetch ends the
  sequence with its error; a body that takes the aggregate size over the budget ends it
  with \<open>SizeLimitError\<close>. The records collected so far are yielded in either case. A
  binary file (content sniffing is the parameter \<open>isBinary\<close>) is recorded and flagged.
\<close>

fun walk :: "(string \<Rightarrow> error + string) \<Rightarrow> (string \<Rightarrow> bool) \<Rightarrow> nat \<Rightarrow> nat \<Rightarrow> string list
    \<Rightarrow> ContentRecord list \<times> error option" where
  "walk readFile isBinary budget used [] = ([], None)"
| "walk readFile isBinary budget used (p # ps) =
     (case readFile p of
        Inl e \<Rightarrow> ([], Some e)
      | Inr body \<Rightarrow>
          if budget < used + length body then ([], Some SizeLimitError)
          else (case walk readFile isBinary budget (used + length body) ps of
                  (rs, e) \<Rightarrow>
                    (\<lparr>path = p, rawContent = body, sizeBytes = length body,
                      isBinaryExcluded = isBinary body\<rparr> # rs, e)))"

text \<open>
  Modelled from the spec: the operation \<^verbatim>\<open>extract\<close> (the name is a keyword here,
  hence \<open>extractRecords\<close>). The reference is resolved to the host provider's
  file listing (\<open>listFiles\<close>, which fails with \<open>AccessError\<close> or \<open>NotFoundError\<close>); the
  paths are put in lexicographic order, the exclusion filters are applied before any body
  is fetched, and the rest is walked. The result is the sequence yielded and the error
  that ended it, if any (\<open>Some SizeLimitError\<close> is the truncation flag).
\<close>

definition extractRecords :: "(RepoInfo \<Rightarrow> error + string list) \<Rightarrow> (RepoInfo \<Rightarrow> string \<Rightarrow> error + string)
    \<Rightarrow> (string \<Rightarrow> string \<Rightarrow> bool) \<Rightarrow> (string \<Rightarrow> bool) \<Rightarrow> nat \<Rightarrow> RepoInfo \<Rightarrow> Filters
    \<Rightarrow> ContentRecord list \<times> error option" where
  "extractRecords listFiles readFile matches isBinary budget ref filters =
     (case listFiles ref of
        Inl e \<Rightarrow> ([], Some e)
      | Inr paths \<Rightarrow>
          walk (readFile ref) isBinary budget 0
            (filter (\<lambda>p. \<not> excluded matches filters p) (sort paths)))"

text \<open>The scenario's repository: the two files, listed by the host in the other order.\<close>

definition noFilters :: Filters where
  "noFilters = \<lparr>excludedDirs = [], excludedFilePatterns = []\<rparr>"

definition scenario_listFiles :: "RepoInfo \<Rightarrow> error + string list" where
  "scenario_listFiles ref = Inr [''b/c.md'', ''a.py'']"

definition scenario_readFile :: "RepoInfo \<Rightarrow> string \<Rightarrow> error + string" where
  "scenario_readFile ref p =
     (if p = ''a.py'' then Inr ''print(1)''
      else if p = ''b/c.md'' then Inr ''# c''
      else Inl NotFoundError)"

definition neverMatches :: "string \<Rightarrow> string \<Rightarrow> bool" where
  "neverMatches pat seg = False"

definition neverBinary :: "string \<Rightarrow> bool" where
  "neverBinary body = False"

section \<open>Conversational Query Resolver\<close>




record 'v Chunk =
  chunkId :: string
  sourcePath :: string
  startLine :: nat
  endLine :: nat
  chunkText :: string
  embeddingVector :: 'v














section \<open>Wiki Structure Synthesizer\<close>

text \<open>
  \<^verbatim>\<open>WikiStructure\<close> is the interface of the source (its fields \<^verbatim>\<open>id\<close> and
  \<^verbatim>\<open>title\<close> are \<open>wikiId\<close> and \<open>wikiTitle\<close> here, since the three records share
  these names).

  Modelled from the spec: the declarations of \<^verbatim>\<open>WikiPage\<close> and \<^verbatim>\<open>WikiSection\<close>, which
  the interface imports, are not among the source files; their fields are the spec's,
  {id, title, content, relatedPageIds} and {id, title, pageIds, subsectionIds}.
\<close>

record WikiPage =
  pageId :: string
  pageTitle :: string
  content :: string
  relatedPageIds :: "string list"

record WikiSection =
  sectionId :: string
  sectionTitle :: string
  pageIds :: "string list"
  subsectionIds :: "string list"

record WikiStructure =
  wikiId :: string
  wikiTitle :: string
  description :: string
  pages :: "WikiPage list"
  sections :: "WikiSection list"
  rootSections :: "string list"

text \<open>The section-to-subsection relation of a structure, on section ids.\<close>

definition subsectionRel :: "WikiStructure \<Rightarrow> (string \<times> string) set" where
  "subsectionRel w =
     {(a, b). \<exists>s \<in> set (sections w). sectionId s = a \<and> b \<in> set (subsectionIds s)}"

text \<open>The subsections listed under a section id.\<close>

definition subsectionsOf :: "WikiSection list \<Rightarrow> string \<Rightarrow> string list" where
  "subsectionsOf secs a = concat (map subsectionIds (filter (\<lambda>s. sectionId s = a) secs))"

text \<open>
  Modelled from the spec: the check of the structural invariant that is run after the
  repair pass. Every reference resolves; no id is used twice; and a depth-first walk from
  each root section, which keeps the trail of sections it is inside of, never comes back
  to a section on its trail (the fuel bounds the depth: a trail without repetition is no
  longer than the list of sections).
\<close>

definition referencesResolve :: "WikiStructure \<Rightarrow> bool" where
  "referencesResolve w =
     (list_all (\<lambda>s. list_all (\<lambda>p. p \<in> set (map pageId (pages w))) (pageIds s)
                  \<and> list_all (\<lambda>c. c \<in> set (map sectionId (sections w))) (subsectionIds s))
        (sections w)
      \<and> list_all (\<lambda>pg. list_all (\<lambda>q. q \<in> set (map pageId (pages w))) (relatedPageIds pg))
          (pages w)
      \<and> list_all (\<lambda>r. r \<in> set (map sectionId (sections w))) (rootSections w))"

definition idsUnique :: "WikiStructure \<Rightarrow> bool" where
  "idsUnique w = distinct (map pageId (pages w) @ map sectionId (sections w))"

fun noCycleFrom :: "(string \<Rightarrow> string list) \<Rightarrow> nat \<Rightarrow> string list \<Rightarrow> string \<Rightarrow> bool" where
  "noCycleFrom subs 0 trail a = False"
| "noCycleFrom subs (Suc fuel) trail a =
     (a \<notin> set trail \<and> list_all (noCycleFrom subs fuel (a # trail)) (subs a))"

definition acyclicFromRoots :: "WikiStructure \<Rightarrow> bool" where
  "acyclicFromRoots w =
     list_all (noCycleFrom (subsectionsOf (sections w)) (Suc (length (sections w))) [])
       (rootSections w)"

definition structurallyValid :: "WikiStructure \<Rightarrow> bool" where
  "structurallyValid w = (referencesResolve w \<and> idsUnique w \<and> acyclicFromRoots w)"

text \<open>
  Modelled from the spec: \<open>synthesize\<close>, which is not among the source files. Steps (1)
  to (3), sampling the index and prompting the model provider for a draft, are the
  parameter \<open>propose\<close>; the repair pass of step (4) is the parameter \<open>repair\<close>. The
  repaired structure is checked and returned, or the call fails with \<open>SynthesisError\<close>.
\<close>

definition synthesize :: "('i \<Rightarrow> error + WikiStructure) \<Rightarrow> (WikiStructure \<Rightarrow> WikiStructure)
    \<Rightarrow> 'i \<Rightarrow> error + WikiStructure" where
  "synthesize propose repair index =
     (case propose index of
        Inl e \<Rightarrow> Inl e
      | Inr draft \<Rightarrow>
          (let w = repair draft
           in if structurallyValid w then Inr w else Inl SynthesisError))"

text \<open>A structure for evaluation, one with a cycle under its root, and two passes.\<close>

definition exampleWiki :: WikiStructure where
  "exampleWiki =
     \<lparr>wikiId = ''wiki'', wikiTitle = ''DeepWiki'', description = ''Generated wiki'',
      pages =
        [\<lparr>pageId = ''overview'', pageTitle = ''Overview'', content = ''...'',
          relatedPageIds = [''api'']\<rparr>,
         \<lparr>pageId = ''api'', pageTitle = ''API'', content = ''...'', relatedPageIds = []\<rparr>],
      sections =
        [\<lparr>sectionId = ''root'', sectionTitle = ''Start'', pageIds = [''overview''],
          subsectionIds = [''backend'']\<rparr>,
         \<lparr>sectionId = ''backend'', sectionTitle = ''Backend'', pageIds = [''api''],
          subsectionIds = []\<rparr>],
      rootSections = [''root'']\<rparr>"

definition cyclicWiki :: WikiStructure where
  "cyclicWiki =
     exampleWiki\<lparr>sections :=
        [\<lparr>sectionId = ''root'', sectionTitle = ''Start'', pageIds = [''overview''],
          subsectionIds = [''backend'']\<rparr>,
         \<lparr>sectionId = ''backend'', sectionTitle = ''Backend'', pageIds = [''api''],
          subsectionIds = [''root'']\<rparr>]\<rparr>"

definition proposeExample :: "unit \<Rightarrow> error + WikiStructure" where
  "proposeExample index = Inr exampleWiki"

definition keepDraft :: "WikiStructure \<Rightarrow> WikiStructure" where
  "keepDraft w = w"

section \<open>Properties of the URL helpers\<close>

lemma replaceSlashes_False: "replaceSlashes False s = dropTrailingSlash s"
  by (induction s) (auto simp: dropTrailingSlash_def)

lemma replaceSlashes_True: "replaceSlashes True s = dropTrailingSlash (dropLeadingSlash s)"
  by (cases s) (auto simp: replaceSlashes_False dropLeadingSlash_def dropTrailingSlash_def)

lemma startsWith_http: "startsWith s ''http'' = (take 4 s = ''http'')"
  by (simp add: startsWith_def eval_nat_numeral)

lemma port_in_defaultPorts:
  "(Some p \<in> set defaultPorts) = (p \<in> {'''', ''80'', ''443''})"
  by (auto simp: defaultPorts_def)

text \<open>
  C8. Both functions are total: each returns a string or \<open>None\<close> (the source's
  \<^verbatim>\<open>null\<close>), the only operation that can throw is the constructor inside the
  \<^verbatim>\<open>try\<close>, and the result is \<open>None\<close> exactly when the constructor rejects the
  input prefixed with \<^verbatim>\<open>https://\<close> unless it starts with \<^verbatim>\<open>http\<close>.
\<close>

theorem extractUrl_null_iff_parse_fails:
  "(extractUrlDomain newURL input = None) = (newURL (normalizedInput input) = None)
   \<and> (extractUrlPath newURL input = None) = (newURL (normalizedInput input) = None)
   \<and> normalizedInput input = (if take 4 input = ''http'' then input else ''https://'' @ input)"
  by (simp add: extractUrlDomain_def extractUrlPath_def normalizedInput_def startsWith_http
      Let_def split: option.split)

theorem extractUrl_null_iff_parse_fails_witness:
  "extractUrlDomain newURL_table '''' = None
   \<and> extractUrlPath newURL_table '''' = None
   \<and> normalizedInput '''' = ''https://''
   \<and> extractUrlDomain newURL_table ''http://example.com:8080/docs/'' \<noteq> None
   \<and> extractUrlPath newURL_table ''http://example.com:8080/docs/'' \<noteq> None"
  using extractUrl_null_iff_parse_fails [of newURL_table "''''"]
    extractUrl_null_iff_parse_fails [of newURL_table "''http://example.com:8080/docs/''"]
  by (simp add: newURL_table_def)

text \<open>
  C9. Where the input parses, the result of \<open>extractUrlDomain\<close> is protocol, \<^verbatim>\<open>//\<close>
  and host name, followed by \<^verbatim>\<open>:\<close> and the port if and only if the port is none of
  the empty string, \<^verbatim>\<open>80\<close> and \<^verbatim>\<open>443\<close>; an explicit port 443 on an
  \<^verbatim>\<open>http\<close> URL is dropped.
\<close>

theorem extractUrlDomain_port_suffix:
  assumes "newURL (normalizedInput input) = Some url"
  shows "(extractUrlDomain newURL input
            = Some (protocol url @ ''//'' @ hostname url @ '':'' @ port url))
           = (port url \<notin> {'''', ''80'', ''443''})
         \<and> (extractUrlDomain newURL input = Some (protocol url @ ''//'' @ hostname url))
           = (port url \<in> {'''', ''80'', ''443''})
         \<and> (protocol url = ''http:'' \<and> port url = ''443''
              \<longrightarrow> extractUrlDomain newURL input = Some (''http://'' @ hostname url))"
  using assms
  by (auto simp: extractUrlDomain_def Let_def port_in_defaultPorts)

theorem extractUrlDomain_port_suffix_witness:
  "extractUrlDomain newURL_table ''http://example.com:443'' = Some ''http://example.com''
   \<and> extractUrlDomain newURL_table ''http://example.com:8080/docs/''
       = Some ''http://example.com:8080''"
proof -
  have a: "newURL_table (normalizedInput ''http://example.com:443'')
      = Some \<lparr>protocol = ''http:'', hostname = ''example.com'', port = ''443'', pathname = ''/''\<rparr>"
    by (simp add: newURL_table_def normalizedInput_def startsWith_def)
  have b: "newURL_table (normalizedInput ''http://example.com:8080/docs/'')
      = Some \<lparr>protocol = ''http:'', hostname = ''example.com'', port = ''8080'',
          pathname = ''/docs/''\<rparr>"
    by (simp add: newURL_table_def normalizedInput_def startsWith_def)
  show ?thesis
    using extractUrlDomain_port_suffix [where newURL = newURL_table, OF a]
      extractUrlDomain_port_suffix [where newURL = newURL_table, OF b]
    by simp
qed

text \<open>
  C10, as amended. Where the input parses, \<open>extractUrlPath\<close> returns the path name
  with one leading slash removed if there is one, and then one trailing slash removed if
  there is one. A path name that begins with two slashes and has a third character gives
  a result that begins with a slash; the path name \<^verbatim>\<open>//\<close> itself gives the empty
  string.
\<close>

theorem extractUrlPath_strips_one_slash_each_end:
  assumes "newURL (normalizedInput input) = Some url"
  shows "extractUrlPath newURL input
           = Some (dropTrailingSlash (dropLeadingSlash (pathname url)))
         \<and> (\<forall>c rest. pathname url = ''//'' @ c # rest
              \<longrightarrow> (\<exists>r. extractUrlPath newURL input = Some (CHR ''/'' # r)))
         \<and> (pathname url = ''//'' \<longrightarrow> extractUrlPath newURL input = Some '''')"
  using assms
  by (auto simp: extractUrlPath_def replaceSlashes_True dropLeadingSlash_def
      dropTrailingSlash_def)

theorem extractUrlPath_strips_one_slash_each_end_witness:
  "extractUrlPath newURL_table ''example.com//a/'' = Some ''/a''"
proof -
  have a: "newURL_table (normalizedInput ''example.com//a/'')
      = Some \<lparr>protocol = ''https:'', hostname = ''example.com'', port = '''',
          pathname = ''//a/''\<rparr>"
    by (simp add: newURL_table_def normalizedInput_def startsWith_def)
  show ?thesis
    using extractUrlPath_strips_one_slash_each_end [where newURL = newURL_table, OF a]
    by (simp add: dropLeadingSlash_def dropTrailingSlash_def)
qed

text \<open>
  C10 without the amendment fails at the path name \<^verbatim>\<open>//\<close>: it begins with two
  slashes, the scan deletes the first as leading and the second as trailing, and the
  result is empty, so it does not begin with a slash.
\<close>

theorem extractUrlPath_double_slash_counterexample:
  "newURL_table (normalizedInput ''example.com//'')
     = Some \<lparr>protocol = ''https:'', hostname = ''example.com'', port = '''', pathname = ''//''\<rparr>
   \<and> extractUrlPath newURL_table ''example.com//'' = Some ''''
   \<and> \<not> startsWith (the (extractUrlPath newURL_table ''example.com//'')) ''/''"
  by (simp add: extractUrlPath_def newURL_table_def normalizedInput_def startsWith_def)

section \<open>Properties of the Content Extractor\<close>

lemma walk_paths: "\<exists>rest. ps = map path (fst (walk rf ib b u ps)) @ rest"
proof (induction ps arbitrary: u)
  case Nil
  show ?case by simp
next
  case (Cons p ps)
  show ?case
  proof (cases "rf p")
    case (Inl e)
    then show ?thesis by simp
  next
    case (Inr body)
    obtain rest where "ps = map path (fst (walk rf ib b (u + length body) ps)) @ rest"
      using Cons.IH by blast
    then show ?thesis using Inr by (auto split: prod.splits)
  qed
qed

lemma sorted_walk: "sorted ps \<Longrightarrow> sorted (map path (fst (walk rf ib b u ps)))"
  using walk_paths [of ps rf ib b u] by (metis sorted_append)

lemma apy_less: "''a.py'' < ''b/c.md''"
  by code_simp

lemma sort_two: "distinct ps \<Longrightarrow> set ps = {''a.py'', ''b/c.md''} \<Longrightarrow> sort ps = [''a.py'', ''b/c.md'']"
proof -
  assume d: "distinct ps" and s: "set ps = {''a.py'', ''b/c.md''}"
  have "sorted [''a.py'', ''b/c.md'']" using apy_less by simp
  moreover have "distinct [''a.py'', ''b/c.md'']" by simp
  moreover have "set (sort ps) = set [''a.py'', ''b/c.md'']" using s by simp
  ultimately show ?thesis
    using d by (metis sorted_distinct_set_unique sorted_sort distinct_sort)
qed

lemma no_filters: "excludedDirs f = [] \<Longrightarrow> excludedFilePatterns f = [] \<Longrightarrow> \<not> excluded m f p"
  by (simp add: excluded_def)


text \<open>
  C6. Whatever the host lists and however the walk ends, the records \<open>extractRecords\<close>
  yields are in lexicographic order of their paths; and a repository whose files are
  exactly \<^verbatim>\<open>a.py\<close> and \<^verbatim>\<open>b/c.md\<close>, with no exclusions, both bodies readable and
  within the size budget, yields exactly two records, \<^verbatim>\<open>a.py\<close> first and \<^verbatim>\<open>b/c.md\<close>
  second.
\<close>

theorem extractRecords_lexicographic_order:
  "sorted (map path (fst (extractRecords listFiles readFile matches isBinary budget ref filters)))
   \<and> (listFiles ref = Inr ps \<and> distinct ps \<and> set ps = {''a.py'', ''b/c.md''}
        \<and> excludedDirs filters = [] \<and> excludedFilePatterns filters = []
        \<and> readFile ref ''a.py'' = Inr bodyA \<and> readFile ref ''b/c.md'' = Inr bodyB
        \<and> length bodyA + length bodyB \<le> budget
      \<longrightarrow> extractRecords listFiles readFile matches isBinary budget ref filters
          = ([\<lparr>path = ''a.py'', rawContent = bodyA, sizeBytes = length bodyA,
                isBinaryExcluded = isBinary bodyA\<rparr>,
              \<lparr>path = ''b/c.md'', rawContent = bodyB, sizeBytes = length bodyB,
                isBinaryExcluded = isBinary bodyB\<rparr>], None))"
proof (intro conjI impI)
  show "sorted (map path (fst (extractRecords listFiles readFile matches isBinary budget ref filters)))"
  proof (cases "listFiles ref")
    case (Inl e)
    then show ?thesis by (simp add: extractRecords_def)
  next
    case (Inr paths)
    have "sorted (filter (\<lambda>p. \<not> excluded matches filters p) (sort paths))"
      by (simp add: sorted_wrt_filter)
    then show ?thesis using Inr by (simp add: extractRecords_def sorted_walk)
  qed
next
  assume h: "listFiles ref = Inr ps \<and> distinct ps \<and> set ps = {''a.py'', ''b/c.md''}
        \<and> excludedDirs filters = [] \<and> excludedFilePatterns filters = []
        \<and> readFile ref ''a.py'' = Inr bodyA \<and> readFile ref ''b/c.md'' = Inr bodyB
        \<and> length bodyA + length bodyB \<le> budget"
  then have "sort ps = [''a.py'', ''b/c.md'']" by (simp add: sort_two)
  moreover have "filter (\<lambda>p. \<not> excluded matches filters p) [''a.py'', ''b/c.md''] = [''a.py'', ''b/c.md'']"
    using h by (simp add: no_filters)
  ultimately show "extractRecords listFiles readFile matches isBinary budget ref filters
          = ([\<lparr>path = ''a.py'', rawContent = bodyA, sizeBytes = length bodyA,
                isBinaryExcluded = isBinary bodyA\<rparr>,
              \<lparr>path = ''b/c.md'', rawContent = bodyB, sizeBytes = length bodyB,
                isBinaryExcluded = isBinary bodyB\<rparr>], None)"
    using h by (simp add: extractRecords_def)
qed

theorem extractRecords_lexicographic_order_witness:
  "extractRecords scenario_listFiles scenario_readFile neverMatches neverBinary 100
     repoInfo_hosted noFilters
   = ([\<lparr>path = ''a.py'', rawContent = ''print(1)'', sizeBytes = 8, isBinaryExcluded = False\<rparr>,
       \<lparr>path = ''b/c.md'', rawContent = ''# c'', sizeBytes = 3, isBinaryExcluded = False\<rparr>],
      None)"
  using extractRecords_lexicographic_order [of scenario_listFiles scenario_readFile neverMatches
      neverBinary 100 repoInfo_hosted noFilters "[''b/c.md'', ''a.py'']" "''print(1)''" "''# c''"]
  by (simp add: scenario_listFiles_def scenario_readFile_def noFilters_def neverBinary_def
      insert_commute)

section \<open>Properties of the Conversational Query Resolver\<close>


















section \<open>Properties of the Wiki Structure Synthesizer\<close>

lemma subsectionRel_subsectionsOf:
  "((a, b) \<in> subsectionRel w) = (b \<in> set (subsectionsOf (sections w) a))"
  by (auto simp: subsectionRel_def subsectionsOf_def)

lemma noCycleFrom_not_on_trail: "noCycleFrom subs fuel trail a \<Longrightarrow> a \<notin> set trail"
  by (cases fuel) auto

lemma noCycleFrom_step:
  "noCycleFrom subs fuel trail a \<Longrightarrow> b \<in> set (subs a)
   \<Longrightarrow> \<exists>fuel'. noCycleFrom subs fuel' (a # trail) b"
  by (cases fuel) (auto simp: list_all_iff)

lemma noCycleFrom_reach:
  assumes "(a, x) \<in> {(a, b). b \<in> set (subs a)}\<^sup>*" and "noCycleFrom subs fuel trail a"
  shows "\<exists>fuel' trail'. noCycleFrom subs fuel' trail' x \<and> set trail \<subseteq> set trail'"
  using assms
proof (induction arbitrary: fuel trail rule: converse_rtrancl_induct)
  case base
  then show ?case by blast
next
  case (step a b)
  from step.hyps(1) have "b \<in> set (subs a)" by simp
  then obtain fuel' where "noCycleFrom subs fuel' (a # trail) b"
    using noCycleFrom_step [OF step.prems] by blast
  from step.IH [OF this] show ?case by auto
qed

lemma noCycleFrom_no_loop:
  assumes "noCycleFrom subs fuel trail a"
  shows "(a, a) \<notin> {(a, b). b \<in> set (subs a)}\<^sup>+"
proof
  assume "(a, a) \<in> {(a, b). b \<in> set (subs a)}\<^sup>+"
  then obtain b where ab: "b \<in> set (subs a)" and ba: "(b, a) \<in> {(a, b). b \<in> set (subs a)}\<^sup>*"
    by (auto dest: tranclD)
  obtain fuel' where "noCycleFrom subs fuel' (a # trail) b"
    using noCycleFrom_step [OF assms ab] by blast
  from noCycleFrom_reach [OF ba this]
  obtain fuel'' trail' where "noCycleFrom subs fuel'' trail' a" and "set (a # trail) \<subseteq> set trail'"
    by blast
  then show False using noCycleFrom_not_on_trail by fastforce
qed

lemma acyclicFromRoots_sound:
  assumes "acyclicFromRoots w" and "r \<in> set (rootSections w)" and "(r, x) \<in> (subsectionRel w)\<^sup>*"
  shows "(x, x) \<notin> (subsectionRel w)\<^sup>+"
proof -
  have rel: "subsectionRel w = {(a, b). b \<in> set (subsectionsOf (sections w) a)}"
    by (auto simp: subsectionRel_subsectionsOf)
  have "noCycleFrom (subsectionsOf (sections w)) (Suc (length (sections w))) [] r"
    using assms(1,2) by (simp add: acyclicFromRoots_def list_all_iff)
  then obtain fuel' trail' where "noCycleFrom (subsectionsOf (sections w)) fuel' trail' x"
    using noCycleFrom_reach assms(3) unfolding rel by blast
  then show ?thesis unfolding rel by (rule noCycleFrom_no_loop)
qed

lemma referencesResolve_sound:
  assumes "referencesResolve w"
  shows "(\<forall>s \<in> set (sections w). \<forall>p \<in> set (pageIds s). \<exists>pg \<in> set (pages w). pageId pg = p)"
    and "(\<forall>r \<in> set (rootSections w). \<exists>s \<in> set (sections w). sectionId s = r)"
    and "(\<forall>s \<in> set (sections w). \<forall>c \<in> set (subsectionIds s). \<exists>t \<in> set (sections w). sectionId t = c)"
    and "(\<forall>pg \<in> set (pages w). \<forall>q \<in> set (relatedPageIds pg). \<exists>pg' \<in> set (pages w). pageId pg' = q)"
  using assms by (fastforce simp: referencesResolve_def list_all_iff)+

lemma noCycleFrom_complete:
  assumes "\<forall>t \<in> set trail. (t, a) \<in> {(a, b). b \<in> set (subs a)}\<^sup>+"
    and "\<forall>x. (a, x) \<in> {(a, b). b \<in> set (subs a)}\<^sup>*
           \<longrightarrow> (x, x) \<notin> {(a, b). b \<in> set (subs a)}\<^sup>+"
    and "distinct trail" and "set trail \<subseteq> S" and "a \<in> S"
    and "\<forall>x \<in> S. set (subs x) \<subseteq> S" and "finite S"
    and "card S < fuel + length trail"
  shows "noCycleFrom subs fuel trail a"
  using assms
proof (induction fuel arbitrary: trail a)
  case 0
  have "length trail \<le> card S"
    using "0.prems"(3,4,7) by (metis card_mono distinct_card)
  with "0.prems"(8) show ?case by simp
next
  case (Suc fuel)
  let ?R = "{(a, b). b \<in> set (subs a)}"
  have fresh: "a \<notin> set trail"
  proof
    assume "a \<in> set trail"
    then have "(a, a) \<in> ?R\<^sup>+" using Suc.prems(1) by blast
    then show False using Suc.prems(2) by blast
  qed
  have "noCycleFrom subs fuel (a # trail) b" if b: "b \<in> set (subs a)" for b
  proof (rule Suc.IH)
    have ab: "(a, b) \<in> ?R" using b by simp
    show "\<forall>t \<in> set (a # trail). (t, b) \<in> ?R\<^sup>+"
      using Suc.prems(1) ab by (auto intro: trancl_into_trancl)
    show "\<forall>x. (b, x) \<in> ?R\<^sup>* \<longrightarrow> (x, x) \<notin> ?R\<^sup>+"
      using Suc.prems(2) ab by (meson converse_rtrancl_into_rtrancl)
    show "distinct (a # trail)" using fresh Suc.prems(3) by simp
    show "set (a # trail) \<subseteq> S" using Suc.prems(4,5) by simp
    show "b \<in> S" using Suc.prems(5,6) b by blast
    show "\<forall>x \<in> S. set (subs x) \<subseteq> S" by (rule Suc.prems(6))
    show "finite S" by (rule Suc.prems(7))
    show "card S < fuel + length (a # trail)" using Suc.prems(8) by simp
  qed
  then show ?case using fresh by (simp add: list_all_iff)
qed

lemma acyclicFromRoots_complete:
  assumes refs: "referencesResolve w"
    and acyc: "\<forall>r \<in> set (rootSections w). \<forall>x. (r, x) \<in> (subsectionRel w)\<^sup>*
             \<longrightarrow> (x, x) \<notin> (subsectionRel w)\<^sup>+"
  shows "acyclicFromRoots w"
proof -
  let ?subs = "subsectionsOf (sections w)"
  let ?S = "set (map sectionId (sections w))"
  have rel: "subsectionRel w = {(a, b). b \<in> set (?subs a)}"
    by (auto simp: subsectionRel_subsectionsOf)
  have closed: "\<forall>x \<in> ?S. set (?subs x) \<subseteq> ?S"
    using refs by (auto simp: referencesResolve_def list_all_iff subsectionsOf_def)
  have "noCycleFrom ?subs (Suc (length (sections w))) [] r" if r: "r \<in> set (rootSections w)" for r
  proof (rule noCycleFrom_complete [where S = ?S])
    show "\<forall>t \<in> set []. (t, r) \<in> {(a, b). b \<in> set (?subs a)}\<^sup>+" by simp
    show "\<forall>x. (r, x) \<in> {(a, b). b \<in> set (?subs a)}\<^sup>*
           \<longrightarrow> (x, x) \<notin> {(a, b). b \<in> set (?subs a)}\<^sup>+"
      using acyc r unfolding rel by blast
    show "distinct []" by simp
    show "set [] \<subseteq> ?S" by simp
    show "r \<in> ?S" using refs r by (simp add: referencesResolve_def list_all_iff)
    show "\<forall>x \<in> ?S. set (?subs x) \<subseteq> ?S" by (rule closed)
    show "finite ?S" by simp
    have "card ?S \<le> length (sections w)"
      by (metis card_length length_map)
    then show "card ?S < Suc (length (sections w)) + length []" by simp
  qed
  then show ?thesis by (simp add: acyclicFromRoots_def list_all_iff)
qed

text \<open>
  The check decides the invariant: it accepts a structure exactly when the invariant
  holds, so \<open>synthesize\<close> fails with \<open>SynthesisError\<close> exactly on a repaired structure
  that violates it.
\<close>

lemma structurallyValid_iff_invariant:
  "structurallyValid w =
     ((\<forall>s \<in> set (sections w). \<forall>p \<in> set (pageIds s). \<exists>pg \<in> set (pages w). pageId pg = p)
       \<and> (\<forall>r \<in> set (rootSections w). \<exists>s \<in> set (sections w). sectionId s = r)
       \<and> (\<forall>s \<in> set (sections w). \<forall>c \<in> set (subsectionIds s).
             \<exists>t \<in> set (sections w). sectionId t = c)
       \<and> (\<forall>pg \<in> set (pages w). \<forall>q \<in> set (relatedPageIds pg).
             \<exists>pg' \<in> set (pages w). pageId pg' = q)
       \<and> (\<forall>r \<in> set (rootSections w). \<forall>x. (r, x) \<in> (subsectionRel w)\<^sup>*
             \<longrightarrow> (x, x) \<notin> (subsectionRel w)\<^sup>+)
       \<and> distinct (map pageId (pages w) @ map sectionId (sections w)))"
  (is "_ = ?inv")
proof
  assume "structurallyValid w"
  then have r: "referencesResolve w" and u: "idsUnique w" and a: "acyclicFromRoots w"
    by (simp_all add: structurallyValid_def)
  show ?inv
    using referencesResolve_sound [OF r] u acyclicFromRoots_sound [OF a]
    by (simp add: idsUnique_def)
next
  assume inv: ?inv
  then have r: "referencesResolve w"
    by (fastforce simp: referencesResolve_def list_all_iff)
  moreover have "idsUnique w" using inv by (simp add: idsUnique_def)
  moreover have "acyclicFromRoots w" using inv by (intro acyclicFromRoots_complete [OF r]) blast
  ultimately show "structurallyValid w" by (simp add: structurallyValid_def)
qed

lemma exampleWiki_valid: "structurallyValid exampleWiki"
  by (simp add: structurallyValid_def referencesResolve_def idsUnique_def acyclicFromRoots_def
      exampleWiki_def subsectionsOf_def)

lemma cyclicWiki_rejected: "synthesize propose (\<lambda>draft. cyclicWiki) index \<noteq> Inr w"
  by (simp add: synthesize_def structurallyValid_def acyclicFromRoots_def exampleWiki_def
      cyclicWiki_def subsectionsOf_def split: sum.split)

text \<open>
  C1. Every structure \<open>synthesize\<close> returns, whatever the draft and the repair pass:
  every page id in a section's \<open>pageIds\<close> is the id of a page; every id in
  \<open>rootSections\<close> and in a section's \<open>subsectionIds\<close> is the id of a section; every id in
  a page's \<open>relatedPageIds\<close> is the id of a page; no section reachable from a root
  section through the subsection relation lies on a cycle of it; and no id is used twice
  among the pages and sections.
\<close>

theorem synthesize_structure_invariant:
  assumes "synthesize propose repair index = Inr w"
  shows "(\<forall>s \<in> set (sections w). \<forall>p \<in> set (pageIds s). \<exists>pg \<in> set (pages w). pageId pg = p)
       \<and> (\<forall>r \<in> set (rootSections w). \<exists>s \<in> set (sections w). sectionId s = r)
       \<and> (\<forall>s \<in> set (sections w). \<forall>c \<in> set (subsectionIds s).
             \<exists>t \<in> set (sections w). sectionId t = c)
       \<and> (\<forall>pg \<in> set (pages w). \<forall>q \<in> set (relatedPageIds pg).
             \<exists>pg' \<in> set (pages w). pageId pg' = q)
       \<and> (\<forall>r \<in> set (rootSections w). \<forall>x. (r, x) \<in> (subsectionRel w)\<^sup>*
             \<longrightarrow> (x, x) \<notin> (subsectionRel w)\<^sup>+)
       \<and> distinct (map pageId (pages w) @ map sectionId (sections w))"
proof -
  have "structurallyValid w"
    using assms by (auto simp: synthesize_def Let_def split: sum.splits if_splits)
  then show ?thesis by (rule iffD1 [OF structurallyValid_iff_invariant])
qed

theorem synthesize_structure_invariant_witness:
  "synthesize proposeExample keepDraft () = Inr exampleWiki
   \<and> (''backend'', ''backend'') \<notin> (subsectionRel exampleWiki)\<^sup>+
   \<and> distinct (map pageId (pages exampleWiki) @ map sectionId (sections exampleWiki))"
proof -
  have s: "synthesize proposeExample keepDraft () = Inr exampleWiki"
    by (simp add: synthesize_def proposeExample_def keepDraft_def exampleWiki_valid)
  have root: "''root'' \<in> set (rootSections exampleWiki)"
    by (simp add: exampleWiki_def)
  have "(''root'', ''backend'') \<in> subsectionRel exampleWiki"
    by (simp add: subsectionRel_def exampleWiki_def)
  then have reach: "(''root'', ''backend'') \<in> (subsectionRel exampleWiki)\<^sup>*"
    by (rule r_into_rtrancl)
  show ?thesis
    using synthesize_structure_invariant [OF s] s root reach by blast
qed

end
